theory Spec2Isabelle
  imports Main "HOL-Library.Word"
begin

section \<open>The chat page: conversation store, request composer, stream decoder\<close>

text \<open>
  A shallow embedding of \<^verbatim>\<open>src/app/page.tsx\<close>. The page keeps its state in React
  hooks (\<^verbatim>\<open>messages\<close>, \<^verbatim>\<open>input\<close>, \<^verbatim>\<open>file\<close>, \<^verbatim>\<open>isLoading\<close>, \<^verbatim>\<open>error\<close>);
  here the state is a record that every handler takes and returns. What the page obtains
  from the platform (the PDF library, the file reader, \<^verbatim>\<open>crypto.randomUUID\<close>,
  \<^verbatim>\<open>JSON.parse\<close>, \<^verbatim>\<open>fetch\<close>) is a field of an environment record. A JavaScript
  string is a \<^typ>\<open>string\<close>, one \<^typ>\<open>char\<close> for each code unit; the strings modelled
  are those whose code units are below 256, which holds of every literal of the page.
\<close>

subsection \<open>String operations of the platform\<close>

text \<open>\<^verbatim>\<open>s.split('\n')\<close>: the pieces between line feeds; never an empty list.\<close>

fun splitNewline :: "string \<Rightarrow> string list" where
  "splitNewline [] = [[]]"
| "splitNewline (c # cs) =
     (if c = CHR 0x0A then [] # splitNewline cs
      else (case splitNewline cs of
              [] \<Rightarrow> [[c]]
            | l # ls \<Rightarrow> (c # l) # ls))"

text \<open>\<^verbatim>\<open>line.startsWith(p)\<close>.\<close>

definition startsWith :: "string \<Rightarrow> string \<Rightarrow> bool" where
  "startsWith p s = (take (length p) s = p)"

text \<open>
  \<^verbatim>\<open>s.trim()\<close>: white space and line terminators are removed at both ends. Among the
  code units below 256 these are tab, line feed, vertical tab, form feed, carriage return,
  space and the no-break space.
\<close>

definition isWhiteSpace :: "char \<Rightarrow> bool" where
  "isWhiteSpace c =
     (c = CHR 0x09 \<or> c = CHR 0x0A \<or> c = CHR 0x0B \<or> c = CHR 0x0C \<or> c = CHR 0x0D
      \<or> c = CHR 0x20 \<or> c = CHR 0xA0)"

definition trim :: "string \<Rightarrow> string" where
  "trim s = rev (dropWhile isWhiteSpace (rev (dropWhile isWhiteSpace s)))"

text \<open>\<^verbatim>\<open>xs.join(sep)\<close> on a list of strings.\<close>

fun join :: "string \<Rightarrow> string list \<Rightarrow> string" where
  "join sep [] = []"
| "join sep [x] = x"
| "join sep (x # y # ys) = x @ sep @ join sep (y # ys)"

text \<open>The decimal rendering of a non-negative integer, as a template literal prints it.\<close>

definition digitChar :: "nat \<Rightarrow> char" where
  "digitChar d = ''0123456789'' ! d"

fun showNat :: "nat \<Rightarrow> string" where
  "showNat n = (if n < 10 then [digitChar n] else showNat (n div 10) @ [digitChar (n mod 10)])"

declare showNat.simps [simp del]

subsection \<open>Values that JSON.parse returns\<close>

text \<open>
  The value of a JSON text. A number is carried as its rendering \<^verbatim>\<open>String(n)\<close>
  (\<^verbatim>\<open>0\<close> and \<^verbatim>\<open>-0\<close> both render as \<^verbatim>\<open>0\<close>); an object is the list of its own
  properties, looked up by key. \<^verbatim>\<open>undefined\<close> is \<^const>\<open>None\<close> of \<^typ>\<open>'a option\<close>.
\<close>

datatype json =
    JNull
  | JBool bool
  | JNum string
  | JStr string
  | JArr "json list"
  | JObj "(string \<times> json) list"

text \<open>
  \<^verbatim>\<open>v.k\<close> on a value that is neither null nor undefined, for the keys the page reads
  (\<^verbatim>\<open>candidates\<close>, \<^verbatim>\<open>content\<close>, \<^verbatim>\<open>parts\<close>, \<^verbatim>\<open>text\<close>, \<^verbatim>\<open>error\<close>,
  \<^verbatim>\<open>message\<close>): only an object can have them, as own properties.
\<close>

fun getProp :: "string \<Rightarrow> json \<Rightarrow> json option" where
  "getProp k (JObj kvs) = map_of kvs k"
| "getProp k v = None"

text \<open>
  \<^verbatim>\<open>v[0]\<close> on a value that is neither null nor undefined: the first element of an
  array, the first code unit of a string, the property \<^verbatim>\<open>0\<close> of an object.
\<close>

fun index0 :: "json \<Rightarrow> json option" where
  "index0 (JArr xs) = (case xs of [] \<Rightarrow> None | x # _ \<Rightarrow> Some x)"
| "index0 (JStr s) = (case s of [] \<Rightarrow> None | c # _ \<Rightarrow> Some (JStr [c]))"
| "index0 (JObj kvs) = map_of kvs ''0''"
| "index0 v = None"

text \<open>Optional chaining \<^verbatim>\<open>v?.\<close>: undefined when \<^verbatim>\<open>v\<close> is null or undefined.\<close>

fun optChain :: "json option \<Rightarrow> (json \<Rightarrow> json option) \<Rightarrow> json option" where
  "optChain None f = None"
| "optChain (Some JNull) f = None"
| "optChain (Some v) f = f v"

text \<open>The test \<^verbatim>\<open>if (v)\<close> and the left operand of \<^verbatim>\<open>||\<close>.\<close>

fun truthy :: "json option \<Rightarrow> bool" where
  "truthy None = False"
| "truthy (Some JNull) = False"
| "truthy (Some (JBool b)) = b"
| "truthy (Some (JNum s)) = (s \<noteq> ''0'')"
| "truthy (Some (JStr s)) = (s \<noteq> [])"
| "truthy (Some (JArr xs)) = True"
| "truthy (Some (JObj kvs)) = True"

text \<open>
  The conversion to a string that \<^verbatim>\<open>+=\<close> on a string and a template literal apply.
  An array is its elements joined by commas, null elements as the empty string; an object
  is \<^verbatim>\<open>[object Object]\<close>, unless it has an own property \<^verbatim>\<open>toString\<close> (which no JSON
  value can make callable), where the conversion raises a TypeError: \<^const>\<open>None\<close>.
\<close>

fun sequenceOpt :: "'a option list \<Rightarrow> 'a list option" where
  "sequenceOpt [] = Some []"
| "sequenceOpt (None # xs) = None"
| "sequenceOpt (Some x # xs) = (case sequenceOpt xs of None \<Rightarrow> None | Some ys \<Rightarrow> Some (x # ys))"

fun toStr :: "json \<Rightarrow> string option" where
  "toStr JNull = Some ''null''"
| "toStr (JBool b) = Some (if b then ''true'' else ''false'')"
| "toStr (JNum s) = Some s"
| "toStr (JStr s) = Some s"
| "toStr (JArr xs) =
     (case sequenceOpt (map (\<lambda>x. if x = JNull then Some [] else toStr x) xs) of
        None \<Rightarrow> None
      | Some ss \<Rightarrow> Some (join '','' ss))"
| "toStr (JObj kvs) =
     (if map_of kvs ''toString'' = None then Some ''[object Object]'' else None)"

subsection \<open>Data model\<close>

text \<open>\<^verbatim>\<open>interface Message { id; role: "user" | "assistant"; content }\<close>.\<close>

datatype role = User | Assistant

record message =
  msg_id :: string
  msg_role :: role
  msg_content :: string

text \<open>\<^verbatim>\<open>interface ApiContent { role: "user" | "model"; parts: { text: string }[] }\<close>.\<close>

datatype api_role = ApiUser | ApiModel

record part =
  part_text :: string

record api_content =
  api_role :: api_role
  api_parts :: "part list"

text \<open>The attached \<^verbatim>\<open>File\<close>: its name and its declared type; the file reader gives its bytes.\<close>

type_synonym bytes = "8 word list"

record pdf_file =
  file_name :: string
  file_type :: string

text \<open>
  A value that a \<^verbatim>\<open>throw\<close> or a rejected promise carries: an instance of \<^verbatim>\<open>Error\<close>
  with its message, or any other value.
\<close>

datatype thrown = ErrorObj string | OtherValue

text \<open>The component's state: the five \<^verbatim>\<open>useState\<close> cells (\<^verbatim>\<open>file_sel\<close> is the cell \<^verbatim>\<open>file\<close>).\<close>

record state =
  messages :: "message list"
  input :: string
  file_sel :: "pdf_file option"
  isLoading :: bool
  error :: "string option"

subsection \<open>The PDF library and the file reader\<close>

record text_item =
  str :: string

record text_content =
  items :: "text_item list"

record pdf_page =
  getTextContent :: "thrown + text_content"

record pdf_document =
  numPages :: nat
  getPage :: "nat \<Rightarrow> thrown + pdf_page"

text \<open>
  What \<^verbatim>\<open>FileReader.readAsArrayBuffer\<close> ends with: \<^verbatim>\<open>onload\<close> with the result
  (which may be missing), or \<^verbatim>\<open>onerror\<close> with an event that is not an \<^verbatim>\<open>Error\<close>.
\<close>

datatype file_read = Loaded "bytes option" | ReadFailed

subsection \<open>The transport\<close>

text \<open>
  A response body as its reader delivers it: the chunks, each already decoded to text
  (\<^verbatim>\<open>decoder.decode(value)\<close> is called on every chunk by itself), and how the reading
  ends: \<^verbatim>\<open>done\<close>, or a \<^verbatim>\<open>read()\<close> that rejects.
\<close>

record byte_stream =
  chunks :: "string list"
  ending :: "thrown option"

record response =
  ok :: bool
  status :: nat
  body :: "byte_stream option"
  json_result :: "thrown + json"

subsection \<open>The environment\<close>

text \<open>
  \<^verbatim>\<open>randomUUID k\<close> is the identifier that the \<^verbatim>\<open>k\<close>-th call of
  \<^verbatim>\<open>crypto.randomUUID()\<close> in one run of the handler returns;
  \<^verbatim>\<open>jsonParse\<close> is \<^verbatim>\<open>JSON.parse\<close>, \<^const>\<open>None\<close> where it throws;
  \<^verbatim>\<open>typeErrorMessage\<close> is the message of the engine's TypeError for a value that
  has no string conversion.
\<close>

record env =
  pdfjsLib :: "(bytes \<Rightarrow> thrown + pdf_document) option"
  readAsArrayBuffer :: "pdf_file \<Rightarrow> file_read"
  randomUUID :: "nat \<Rightarrow> string"
  jsonParse :: "string \<Rightarrow> json option"
  fetch :: "api_content list \<Rightarrow> thrown + response"
  typeErrorMessage :: string

subsection \<open>parsePdf\<close>

text \<open>
  The page loop of \<^verbatim>\<open>parsePdf\<close>:
  \<^verbatim>\<open>for (let i = 1; i <= pdf.numPages; i++) { ...; fullText += pageText + "\n"; }\<close>.
  A page that cannot be fetched, or whose text content cannot be read, throws; the
  \<^verbatim>\<open>catch\<close> rejects with the value thrown and \<^verbatim>\<open>fullText\<close> is dropped.
\<close>

function pageLoop :: "pdf_document \<Rightarrow> nat \<Rightarrow> string \<Rightarrow> thrown + string" where
  "pageLoop pdf i fullText =
     (if i \<le> numPages pdf then
        (case getPage pdf i of
           Inl err \<Rightarrow> Inl err
         | Inr page \<Rightarrow>
             (case getTextContent page of
                Inl err \<Rightarrow> Inl err
              | Inr textContent \<Rightarrow>
                  (let pageText = join '' '' (map str (items textContent))
                   in pageLoop pdf (i + 1) (fullText @ pageText @ [CHR 0x0A]))))
      else Inr fullText)"
  by pat_completeness auto
termination
  by (relation "measure (\<lambda>(pdf, i, fullText). Suc (numPages pdf) - i)") auto

declare pageLoop.simps [simp del]

definition parsePdf :: "env \<Rightarrow> pdf_file \<Rightarrow> thrown + string" where
  "parsePdf e pdfFile =
     (case pdfjsLib e of
        None \<Rightarrow> Inl (ErrorObj ''PDF.js library is not loaded yet.'')
      | Some getDocument \<Rightarrow>
          (case readAsArrayBuffer e pdfFile of
             ReadFailed \<Rightarrow> Inl OtherValue
           | Loaded None \<Rightarrow> Inl (ErrorObj ''Failed to read file.'')
           | Loaded (Some typedArray) \<Rightarrow>
               (case getDocument typedArray of
                  Inl err \<Rightarrow> Inl err
                | Inr pdf \<Rightarrow> pageLoop pdf 1 [])))"

subsection \<open>The request composer\<close>

text \<open>
  \<^verbatim>\<open>apiRequestText\<close>: the trimmed input, followed, when \<^verbatim>\<open>pdfText\<close> is not empty,
  by a header line naming the file and the text of the file.
\<close>

definition fileNameOf :: "pdf_file option \<Rightarrow> string" where
  "fileNameOf f = (case f of None \<Rightarrow> ''undefined'' | Some pdfFile \<Rightarrow> file_name pdfFile)"

definition apiRequestText :: "string \<Rightarrow> pdf_file option \<Rightarrow> string \<Rightarrow> string" where
  "apiRequestText inp f pdfText =
     (if pdfText \<noteq> [] then
        trim inp @ [CHR 0x0A, CHR 0x0A] @ ''--- Content from '' @ fileNameOf f @ '' ---''
          @ [CHR 0x0A] @ pdfText
      else trim inp)"

text \<open>
  \<^verbatim>\<open>chatHistory\<close>: every message of the store, \<^verbatim>\<open>assistant\<close> sent as \<^verbatim>\<open>model\<close>
  and any other role as \<^verbatim>\<open>user\<close>, then one \<^verbatim>\<open>user\<close> entry with the request text.
\<close>

definition toApiContent :: "message \<Rightarrow> api_content" where
  "toApiContent msg =
     \<lparr>api_role = (if msg_role msg = Assistant then ApiModel else ApiUser),
      api_parts = [\<lparr>part_text = msg_content msg\<rparr>]\<rparr>"

definition chatHistory :: "message list \<Rightarrow> string \<Rightarrow> api_content list" where
  "chatHistory msgs requestText =
     map toApiContent msgs @ [\<lparr>api_role = ApiUser, api_parts = [\<lparr>part_text = requestText\<rparr>]\<rparr>]"

text \<open>The user message shown in the store: the trimmed input, or the file's name.\<close>

definition userMessage :: "env \<Rightarrow> state \<Rightarrow> message" where
  "userMessage e st =
     \<lparr>msg_id = randomUUID e 0,
      msg_role = User,
      msg_content =
        (if trim (input st) \<noteq> [] then trim (input st)
         else ''File uploaded: '' @ fileNameOf (file_sel st))\<rparr>"

subsection \<open>The stream decoder\<close>

text \<open>
  What the reading loop holds: the two locals \<^verbatim>\<open>aiResponseContent\<close> and
  \<^verbatim>\<open>assistantMessageId\<close>, the \<^verbatim>\<open>messages\<close> cell that \<^verbatim>\<open>setMessages\<close> updates,
  and how many identifiers the run has drawn so far.
\<close>

record decoder =
  aiResponseContent :: string
  assistantMessageId :: "string option"
  store :: "message list"
  uuidCalls :: nat

text \<open>
  \<^verbatim>\<open>parsed.candidates?.[0]?.content?.parts?.[0]?.text\<close>. The first access is not
  optional: on \<^verbatim>\<open>null\<close> it raises a TypeError, the outer \<^const>\<open>None\<close>.
\<close>

definition textPart :: "json \<Rightarrow> json option option" where
  "textPart parsed =
     (if parsed = JNull then None
      else Some (optChain (optChain (optChain (optChain (optChain
             (getProp ''candidates'' parsed) index0) (getProp ''content''))
             (getProp ''parts'')) index0) (getProp ''text'')))"

text \<open>
  The body of \<^verbatim>\<open>if (textPart)\<close>, with the text already converted: the text is added to
  \<^verbatim>\<open>aiResponseContent\<close>; while no identifier is held (\<^verbatim>\<open>!assistantMessageId\<close>, which
  the empty string passes too) one is drawn and a message is appended; otherwise every
  message with the identifier held gets the accumulated content.
\<close>

definition appendMessage :: "env \<Rightarrow> decoder \<Rightarrow> string \<Rightarrow> decoder" where
  "appendMessage e d content' =
     (let newId = randomUUID e (uuidCalls d)
      in d\<lparr>aiResponseContent := content',
           assistantMessageId := Some newId,
           uuidCalls := Suc (uuidCalls d),
           store := store d @ [\<lparr>msg_id = newId, msg_role = Assistant, msg_content = content'\<rparr>]\<rparr>)"

definition updateMessage :: "string \<Rightarrow> decoder \<Rightarrow> string \<Rightarrow> decoder" where
  "updateMessage held d content' =
     d\<lparr>aiResponseContent := content',
       store := map (\<lambda>msg. if msg_id msg = held then msg\<lparr>msg_content := content'\<rparr> else msg)
                  (store d)\<rparr>"

definition onTextPart :: "env \<Rightarrow> decoder \<Rightarrow> string \<Rightarrow> decoder" where
  "onTextPart e d t =
     (let content' = aiResponseContent d @ t
      in (case assistantMessageId d of
            None \<Rightarrow> appendMessage e d content'
          | Some held \<Rightarrow>
              if held = [] then appendMessage e d content'
              else updateMessage held d content'))"

text \<open>
  One line of a chunk. Whatever the \<^verbatim>\<open>try\<close> raises (the parser, the access on
  \<^verbatim>\<open>null\<close>, the conversion of the text) is caught and logged: the line changes nothing.
\<close>

definition processLine :: "env \<Rightarrow> decoder \<Rightarrow> string \<Rightarrow> decoder" where
  "processLine e d line =
     (if startsWith ''data: '' line then
        (let jsonStr = trim (drop 6 line)
         in if jsonStr \<noteq> [] then
              (case jsonParse e jsonStr of
                 None \<Rightarrow> d
               | Some parsed \<Rightarrow>
                   (case textPart parsed of
                      None \<Rightarrow> d
                    | Some tp \<Rightarrow>
                        if truthy tp then
                          (case tp of
                             None \<Rightarrow> d
                           | Some v \<Rightarrow>
                               (case toStr v of
                                  None \<Rightarrow> d
                                | Some t \<Rightarrow> onTextPart e d t))
                        else d))
            else d)
      else d)"

text \<open>\<^verbatim>\<open>for (const line of lines)\<close> and \<^verbatim>\<open>while (true) { read ... }\<close>.\<close>

fun forLines :: "env \<Rightarrow> decoder \<Rightarrow> string list \<Rightarrow> decoder" where
  "forLines e d [] = d"
| "forLines e d (line # lines) = forLines e (processLine e d line) lines"

definition decodeChunk :: "env \<Rightarrow> decoder \<Rightarrow> string \<Rightarrow> decoder" where
  "decodeChunk e d chunk = forLines e d (splitNewline chunk)"

fun readLoop :: "env \<Rightarrow> decoder \<Rightarrow> string list \<Rightarrow> decoder" where
  "readLoop e d [] = d"
| "readLoop e d (chunk # rest) = readLoop e (decodeChunk e d chunk) rest"

subsection \<open>handleSendMessage\<close>

text \<open>\<^verbatim>\<open>err instanceof Error ? err.message : fallback\<close>.\<close>

definition errorMessage :: "string \<Rightarrow> thrown \<Rightarrow> string" where
  "errorMessage fallback err = (case err of ErrorObj m \<Rightarrow> m | OtherValue \<Rightarrow> fallback)"

text \<open>
  What the branch \<^verbatim>\<open>if (!response.ok || !response.body)\<close> throws: whatever
  \<^verbatim>\<open>response.json()\<close> rejects with, or the error built from the status and from
  \<^verbatim>\<open>errorBody?.error?.message || 'Unknown error'\<close>.
\<close>

definition remoteMessage :: "json \<Rightarrow> json" where
  "remoteMessage errorBody =
     (let m = optChain (optChain (Some errorBody) (getProp ''error'')) (getProp ''message'')
      in (case m of
            None \<Rightarrow> JStr ''Unknown error''
          | Some v \<Rightarrow> if truthy m then v else JStr ''Unknown error''))"

definition apiError :: "env \<Rightarrow> response \<Rightarrow> thrown" where
  "apiError e resp =
     (case json_result resp of
        Inl err \<Rightarrow> err
      | Inr errorBody \<Rightarrow>
          (case toStr (remoteMessage errorBody) of
             None \<Rightarrow> ErrorObj (typeErrorMessage e)
           | Some m \<Rightarrow> ErrorObj (''API error: '' @ showNat (status resp) @ '' - '' @ m)))"

text \<open>
  The \<^verbatim>\<open>try\<close> block: the request, the check of the response, the reading loop. It
  gives the decoder's last state and the value thrown, if any; what \<^verbatim>\<open>setMessages\<close>
  did before a throw stays done. The loop starts with \<^verbatim>\<open>aiResponseContent = ''\<close> and
  \<^verbatim>\<open>assistantMessageId = null\<close>, after the one identifier the user message drew.
\<close>

definition newDecoder :: "message list \<Rightarrow> decoder" where
  "newDecoder msgs =
     \<lparr>aiResponseContent = [], assistantMessageId = None, store = msgs, uuidCalls = 1\<rparr>"

definition tryBlock :: "env \<Rightarrow> api_content list \<Rightarrow> message list \<Rightarrow> decoder \<times> thrown option" where
  "tryBlock e history msgs =
     (let d0 = newDecoder msgs
      in (case fetch e history of
            Inl err \<Rightarrow> (d0, Some err)
          | Inr resp \<Rightarrow>
              (case body resp of
                 None \<Rightarrow> (d0, Some (apiError e resp))
               | Some reader \<Rightarrow>
                   if \<not> ok resp then (d0, Some (apiError e resp))
                   else (readLoop e d0 (chunks reader), ending reader))))"

text \<open>
  \<^verbatim>\<open>let pdfText = ""; if (file) { pdfText = await parsePdf(file); }\<close>, with what
  \<^verbatim>\<open>parsePdf\<close> throws as the left value.
\<close>

definition pdfTextOf :: "env \<Rightarrow> state \<Rightarrow> thrown + string" where
  "pdfTextOf e st = (case file_sel st of None \<Rightarrow> Inr [] | Some pdfFile \<Rightarrow> parsePdf e pdfFile)"

text \<open>
  One run of the handler, from the submit event to the \<^verbatim>\<open>finally\<close>: the state it
  leaves and the history it sent, if it sent one. \<^verbatim>\<open>messages.map\<close> at the composer
  reads the \<^verbatim>\<open>messages\<close> of the render the handler belongs to: the state at entry.
\<close>

record outcome =
  final :: state
  sent :: "api_content list option"

definition afterTry :: "env \<Rightarrow> state \<Rightarrow> decoder \<times> thrown option \<Rightarrow> state" where
  "afterTry e st r =
     (case r of
        (d, None) \<Rightarrow> st\<lparr>messages := store d, isLoading := False\<rparr>
      | (d, Some err) \<Rightarrow>
          (let m = errorMessage ''An unknown error occurred.'' err
           in st\<lparr>messages := store d @
                    [\<lparr>msg_id = randomUUID e (uuidCalls d), msg_role = Assistant,
                      msg_content = ''Sorry, something went wrong: '' @ m\<rparr>],
                  error := Some m,
                  isLoading := False\<rparr>))"

definition handleSendMessage :: "env \<Rightarrow> state \<Rightarrow> outcome" where
  "handleSendMessage e st =
     (if (trim (input st) = [] \<and> file_sel st = None) \<or> isLoading st
      then \<lparr>final = st, sent = None\<rparr>
      else
        (let st1 = st\<lparr>isLoading := True, error := None\<rparr>
         in (case pdfTextOf e st of
               Inl err \<Rightarrow>
                 \<lparr>final = st1\<lparr>error := Some (errorMessage ''Failed to parse PDF.'' err),
                              isLoading := False\<rparr>,
                  sent = None\<rparr>
             | Inr pdfText \<Rightarrow>
                 (let st2 = st1\<lparr>messages := messages st1 @ [userMessage e st]\<rparr>;
                      requestText = apiRequestText (input st) (file_sel st) pdfText;
                      st3 = st2\<lparr>input := [], file_sel := None\<rparr>;
                      history = chatHistory (messages st) requestText
                  in \<lparr>final = afterTry e st3 (tryBlock e history (messages st3)),
                      sent = Some history\<rparr>))))"

subsection \<open>What a stream delivers\<close>

text \<open>
  The text that one line adds to the assistant's message, if it adds any: the line is a
  data record, its body is not empty and parses, the text part is there and passes the
  test \<^verbatim>\<open>if (textPart)\<close>, and its conversion to a string does not raise.
\<close>

definition lineFragment :: "env \<Rightarrow> string \<Rightarrow> string option" where
  "lineFragment e line =
     (if startsWith ''data: '' line \<and> trim (drop 6 line) \<noteq> [] then
        (case jsonParse e (trim (drop 6 line)) of
           None \<Rightarrow> None
         | Some parsed \<Rightarrow>
             (case textPart parsed of
                None \<Rightarrow> None
              | Some None \<Rightarrow> None
              | Some (Some v) \<Rightarrow> if truthy (Some v) then toStr v else None))
      else None)"

text \<open>The lines of a stream as the reading loop meets them, and the fragments they deliver.\<close>

definition streamLines :: "string list \<Rightarrow> string list" where
  "streamLines cs = concat (map splitNewline cs)"

definition fragmentsOf :: "env \<Rightarrow> string list \<Rightarrow> string list" where
  "fragmentsOf e ls = List.map_filter (lineFragment e) ls"

definition streamFragments :: "env \<Rightarrow> string list \<Rightarrow> string list" where
  "streamFragments e cs = fragmentsOf e (streamLines cs)"

text \<open>A data record whose body does not parse.\<close>

definition malformedRecord :: "env \<Rightarrow> string \<Rightarrow> bool" where
  "malformedRecord e line =
     (startsWith ''data: '' line \<and> trim (drop 6 line) \<noteq> [] \<and> jsonParse e (trim (drop 6 line)) = None)"

text \<open>The text fragments of page \<^verbatim>\<open>i\<close> of a document, or what reading the page throws.\<close>

definition pageStrings :: "pdf_document \<Rightarrow> nat \<Rightarrow> thrown + string list" where
  "pageStrings pdf i =
     (case getPage pdf i of
        Inl err \<Rightarrow> Inl err
      | Inr page \<Rightarrow>
          (case getTextContent page of
             Inl err \<Rightarrow> Inl err
           | Inr textContent \<Rightarrow> Inr (map str (items textContent))))"

subsection \<open>Example values\<close>

text \<open>The store of a freshly loaded page: the greeting.\<close>

definition initialMessages :: "message list" where
  "initialMessages =
     [\<lparr>msg_id = ''1'', msg_role = Assistant,
       msg_content = ''Hello! I'' @ [CHR 0x27] @ ''m a friendly AI assistant. How can I help you today? You can also upload a PDF.''\<rparr>]"

text \<open>The event object \<^verbatim>\<open>{"candidates":[{"content":{"parts":[{"text":t}]}}]}\<close>.\<close>

definition textEvent :: "json \<Rightarrow> json" where
  "textEvent t =
     JObj [(''candidates'', JArr [JObj [(''content'', JObj [(''parts'', JArr [JObj [(''text'', t)]])])]])]"

text \<open>
  \<^verbatim>\<open>JSON.parse\<close> on the texts that the examples pass to it: the texts listed are JSON
  texts with the values shown; every other text an example passes is not a JSON text.
\<close>

definition sampleParse :: "string \<Rightarrow> json option" where
  \<open>sampleParse s =
     map_of
       [(''{"candidates":[{"content":{"parts":[{"text":"Hel"}]}}]}'', textEvent (JStr ''Hel'')),
        (''{"candidates":[{"content":{"parts":[{"text":"lo"}]}}]}'', textEvent (JStr ''lo'')),
        (''{"candidates":[{"content":{"parts":[{"text":"Hello"}]}}]}'', textEvent (JStr ''Hello'')),
        (''{"usageMetadata":{"totalTokenCount":7}}'',
           JObj [(''usageMetadata'', JObj [(''totalTokenCount'', JNum ''7'')])])] s\<close>

text \<open>A one-page and a two-page document, and a document whose second page cannot be read.\<close>

definition pageOf :: "string list \<Rightarrow> pdf_page" where
  "pageOf ss = \<lparr>getTextContent = Inr \<lparr>items = map (\<lambda>s. \<lparr>str = s\<rparr>) ss\<rparr>\<rparr>"

definition samplePdf :: pdf_document where
  "samplePdf =
     \<lparr>numPages = 2,
      getPage = (\<lambda>i. if i = 1 then Inr (pageOf [''Annual'', ''report''])
                     else if i = 2 then Inr (pageOf [''Page'', ''two''])
                     else Inl (ErrorObj ''Invalid page request''))\<rparr>"

definition brokenPdf :: pdf_document where
  "brokenPdf =
     \<lparr>numPages = 2,
      getPage = (\<lambda>i. if i = 1 then Inr (pageOf [''Annual'', ''report''])
                     else Inl (ErrorObj ''Invalid page request''))\<rparr>"

definition sampleFile :: pdf_file where
  "sampleFile = \<lparr>file_name = ''report.pdf'', file_type = ''application/pdf''\<rparr>"

text \<open>Two chunks carrying one record each, as the service sends them.\<close>

definition helloChunks :: "string list" where
  \<open>helloChunks =
     [''data: {"candidates":[{"content":{"parts":[{"text":"Hel"}]}}]}'' @ [CHR 0x0A],
      ''data: {"candidates":[{"content":{"parts":[{"text":"lo"}]}}]}'' @ [CHR 0x0A]]\<close>

definition sampleResponse :: response where
  "sampleResponse =
     \<lparr>ok = True, status = 200,
      body = Some \<lparr>chunks = helloChunks, ending = None\<rparr>,
      json_result = Inl (ErrorObj ''body stream already read'')\<rparr>"

definition sampleEnv :: env where
  "sampleEnv =
     \<lparr>pdfjsLib = Some (\<lambda>typedArray. Inr samplePdf),
      readAsArrayBuffer = (\<lambda>pdfFile. Loaded (Some [37, 80, 68, 70])),
      randomUUID = (\<lambda>k. ''uuid-'' @ showNat k),
      jsonParse = sampleParse,
      fetch = (\<lambda>history. Inr sampleResponse),
      typeErrorMessage = ''Cannot convert object to primitive value''\<rparr>"

text \<open>One record line cut in two by a chunk boundary.\<close>

definition splitChunks :: "string list" where
  \<open>splitChunks =
     [''data: {"candidates":[{"content":{"parts":[{"text":"Hel'',
      ''lo"}]}}]}'' @ [CHR 0x0A]]\<close>

text \<open>Two valid records with a record that is not JSON between them.\<close>

definition noisyChunks :: "string list" where
  \<open>noisyChunks =
     [''data: {"candidates":[{"content":{"parts":[{"text":"Hel"}]}}]}'' @ [CHR 0x0A]
        @ ''data: {"candidates": oops'' @ [CHR 0x0A],
      ''data: {"candidates":[{"content":{"parts":[{"text":"lo"}]}}]}'' @ [CHR 0x0A]]\<close>





text \<open>A response that the service refuses, with the reason in its body.\<close>

definition failedResponse :: response where
  "failedResponse =
     \<lparr>ok = False, status = 400,
      body = Some \<lparr>chunks = [], ending = None\<rparr>,
      json_result = Inr (JObj [(''error'', JObj [(''code'', JNum ''400''),
                                                  (''message'', JStr ''API key not valid.'')])])\<rparr>"

definition failedEnv :: env where
  "failedEnv = sampleEnv\<lparr>fetch := (\<lambda>history. Inr failedResponse)\<rparr>"

definition brokenEnv :: env where
  "brokenEnv = sampleEnv\<lparr>pdfjsLib := Some (\<lambda>typedArray. Inr brokenPdf)\<rparr>"

text \<open>A typed question, the same while a submission is in flight, and a file with no text typed.\<close>

definition typedState :: state where
  "typedState =
     \<lparr>messages = initialMessages, input = '' 2+2? '', file_sel = None, isLoading = False,
      error = None\<rparr>"

definition busyState :: state where
  "busyState = typedState\<lparr>isLoading := True\<rparr>"

definition fileState :: state where
  "fileState =
     \<lparr>messages = initialMessages, input = ''  '', file_sel = Some sampleFile, isLoading = False,
      error = None\<rparr>"

definition samplePages :: "nat \<Rightarrow> string list" where
  "samplePages i = (if i = 1 then [''Annual'', ''report''] else [''Page'', ''two''])"

subsection \<open>An invariant of the reading loop\<close>

text \<open>
  The message at position \<open>n\<close> of the store is \<open>um\<close>, and the identifier the loop
  holds, if it holds one, is not the identifier of \<open>um\<close>.
\<close>

definition keeps :: "nat \<Rightarrow> message \<Rightarrow> decoder \<Rightarrow> bool" where
  "keeps n um d =
     (n < length (store d) \<and> store d ! n = um \<and> 1 \<le> uuidCalls d
      \<and> (\<forall>a. assistantMessageId d = Some a \<longrightarrow> a \<noteq> msg_id um))"

section \<open>Properties\<close>

subsection \<open>Lines and fragments\<close>

lemma splitNewline_not_Nil: "splitNewline s \<noteq> []"
  by (induction s) (auto split: list.splits)

lemma splitNewline_append_LF:
  "splitNewline (a @ CHR 0x0A # b) = splitNewline a @ splitNewline b"
proof (induction a)
  case Nil
  then show ?case by simp
next
  case (Cons c a)
  then show ?case
    using splitNewline_not_Nil [of a]
    by (cases "splitNewline a") (auto split: list.splits)
qed

lemma processLine_fragment:
  "processLine e d line = (case lineFragment e line of None \<Rightarrow> d | Some t \<Rightarrow> onTextPart e d t)"
  by (auto simp: processLine_def lineFragment_def Let_def split: option.splits)

lemma processLine_empty: "processLine e d [] = d"
  by (simp add: processLine_def startsWith_def)

lemma forLines_append: "forLines e d (xs @ ys) = forLines e (forLines e d xs) ys"
  by (induction xs arbitrary: d) auto

lemma readLoop_lines: "readLoop e d cs = forLines e d (streamLines cs)"
  by (induction cs arbitrary: d) (auto simp: streamLines_def decodeChunk_def forLines_append)

lemma fragmentsOf_Nil: "fragmentsOf e [] = []"
  by (simp add: fragmentsOf_def map_filter_simps)

lemma fragmentsOf_Cons:
  "fragmentsOf e (l # ls) = (case lineFragment e l of None \<Rightarrow> fragmentsOf e ls | Some t \<Rightarrow> t # fragmentsOf e ls)"
  by (simp add: fragmentsOf_def map_filter_simps split: option.splits)

lemma fragmentsOf_append: "fragmentsOf e (xs @ ys) = fragmentsOf e xs @ fragmentsOf e ys"
  by (simp add: fragmentsOf_def map_filter_def)


lemma forLines_content:
  "aiResponseContent (forLines e d ls) = aiResponseContent d @ concat (fragmentsOf e ls)"
  by (induction ls arbitrary: d)
     (auto simp: fragmentsOf_Cons fragmentsOf_Nil processLine_fragment onTextPart_def appendMessage_def
        updateMessage_def Let_def split: option.splits)


lemma onTextPart_held:
  assumes "assistantMessageId d = Some a" and "a \<noteq> []"
  shows "onTextPart e d t = updateMessage a d (aiResponseContent d @ t)"
  using assms by (simp add: onTextPart_def Let_def)

lemma onTextPart_first:
  assumes "assistantMessageId d = None"
  shows "onTextPart e d t = appendMessage e d (aiResponseContent d @ t)"
  using assms by (simp add: onTextPart_def Let_def)

lemma updateMessage_last:
  assumes "a \<notin> msg_id ` set pre"
    and "store d = pre @ [\<lparr>msg_id = a, msg_role = r, msg_content = c\<rparr>]"
  shows "store (updateMessage a d c') = pre @ [\<lparr>msg_id = a, msg_role = r, msg_content = c'\<rparr>]"
proof -
  have "map (\<lambda>msg. if msg_id msg = a then msg\<lparr>msg_content := c'\<rparr> else msg) pre = pre"
    using assms(1) by (induction pre) auto
  then show ?thesis using assms(2) by (simp add: updateMessage_def)
qed

lemma forLines_held:
  assumes "assistantMessageId d = Some a" and "a \<noteq> []"
    and "a \<notin> msg_id ` set pre"
    and "store d = pre @ [\<lparr>msg_id = a, msg_role = r, msg_content = aiResponseContent d\<rparr>]"
  shows "store (forLines e d ls) =
           pre @ [\<lparr>msg_id = a, msg_role = r,
                   msg_content = aiResponseContent d @ concat (fragmentsOf e ls)\<rparr>]
         \<and> uuidCalls (forLines e d ls) = uuidCalls d"
  using assms
proof (induction ls arbitrary: d)
  case Nil
  then show ?case by (simp add: fragmentsOf_Nil)
next
  case (Cons l ls)
  show ?case
  proof (cases "lineFragment e l")
    case None
    then show ?thesis using Cons by (simp add: processLine_fragment fragmentsOf_Cons)
  next
    case (Some t)
    let ?d = "updateMessage a d (aiResponseContent d @ t)"
    have step: "processLine e d l = ?d"
      using Some Cons.prems(1,2) by (simp add: processLine_fragment onTextPart_held)
    have s: "store ?d = pre @ [\<lparr>msg_id = a, msg_role = r, msg_content = aiResponseContent ?d\<rparr>]"
      using updateMessage_last [OF Cons.prems(3) Cons.prems(4)] by (simp add: updateMessage_def)
    have i: "assistantMessageId ?d = Some a"
      using Cons.prems(1) by (simp add: updateMessage_def)
    have "store (forLines e ?d ls) =
           pre @ [\<lparr>msg_id = a, msg_role = r,
                   msg_content = aiResponseContent ?d @ concat (fragmentsOf e ls)\<rparr>]
         \<and> uuidCalls (forLines e ?d ls) = uuidCalls ?d"
      by (rule Cons.IH [OF i Cons.prems(2) Cons.prems(3) s])
    then show ?thesis
      using Some step by (simp add: fragmentsOf_Cons updateMessage_def)
  qed
qed

lemma forLines_first:
  assumes "assistantMessageId d = None"
    and "randomUUID e (uuidCalls d) \<noteq> []"
    and "randomUUID e (uuidCalls d) \<notin> msg_id ` set (store d)"
    and "fragmentsOf e ls \<noteq> []"
  shows "store (forLines e d ls) =
           store d @ [\<lparr>msg_id = randomUUID e (uuidCalls d), msg_role = Assistant,
                       msg_content = aiResponseContent d @ concat (fragmentsOf e ls)\<rparr>]
         \<and> uuidCalls (forLines e d ls) = Suc (uuidCalls d)"
  using assms
proof (induction ls arbitrary: d)
  case Nil
  then show ?case by (simp add: fragmentsOf_Nil)
next
  case (Cons l ls)
  show ?case
  proof (cases "lineFragment e l")
    case None
    then show ?thesis using Cons by (simp add: processLine_fragment fragmentsOf_Cons)
  next
    case (Some t)
    let ?a = "randomUUID e (uuidCalls d)"
    let ?d = "appendMessage e d (aiResponseContent d @ t)"
    have step: "processLine e d l = ?d"
      using Some Cons.prems(1) by (simp add: processLine_fragment onTextPart_first)
    have i: "assistantMessageId ?d = Some ?a"
      by (simp add: appendMessage_def Let_def)
    have s: "store ?d = store d @ [\<lparr>msg_id = ?a, msg_role = Assistant, msg_content = aiResponseContent ?d\<rparr>]"
      by (simp add: appendMessage_def Let_def)
    have "store (forLines e ?d ls) =
           store d @ [\<lparr>msg_id = ?a, msg_role = Assistant,
                   msg_content = aiResponseContent ?d @ concat (fragmentsOf e ls)\<rparr>]
         \<and> uuidCalls (forLines e ?d ls) = uuidCalls ?d"
      by (rule forLines_held [OF i Cons.prems(2) Cons.prems(3) s])
    then show ?thesis
      using Some step by (simp add: fragmentsOf_Cons appendMessage_def Let_def)
  qed
qed


subsection \<open>Chunk boundaries and malformed records\<close>

lemma decodeChunk_Nil: "decodeChunk e d [] = d"
  by (simp add: decodeChunk_def processLine_empty)

lemma decodeChunk_after_line_end:
  assumes "c = [] \<or> last c = CHR 0x0A"
  shows "decodeChunk e (decodeChunk e d c) r = decodeChunk e d (c @ r)"
proof (cases "c = []")
  case True
  then show ?thesis by (simp add: decodeChunk_Nil)
next
  case False
  with assms obtain a where c: "c = a @ [CHR 0x0A]"
    by (metis append_butlast_last_id)
  have "splitNewline c = splitNewline a @ [[]]"
    using splitNewline_append_LF [of a "[]"] by (simp add: c)
  moreover have "splitNewline (c @ r) = splitNewline a @ splitNewline r"
    using splitNewline_append_LF [of a r] by (simp add: c)
  ultimately show ?thesis
    by (simp add: decodeChunk_def forLines_append processLine_empty)
qed

lemma malformed_ignored: "malformedRecord e bad \<Longrightarrow> processLine e d bad = d"
  by (simp add: malformedRecord_def processLine_def Let_def)

lemma malformed_no_fragment: "malformedRecord e bad \<Longrightarrow> lineFragment e bad = None"
  by (simp add: malformedRecord_def lineFragment_def)

subsection \<open>The handler\<close>

lemma handleSendMessage_accepted:
  assumes "\<not> isLoading st" and "trim (input st) \<noteq> [] \<or> file_sel st \<noteq> None"
    and "pdfTextOf e st = Inr pdfText"
  shows "handleSendMessage e st =
     \<lparr>final = afterTry e
         (st\<lparr>isLoading := True, error := None, messages := messages st @ [userMessage e st],
             input := [], file_sel := None\<rparr>)
         (tryBlock e (chatHistory (messages st) (apiRequestText (input st) (file_sel st) pdfText))
            (messages st @ [userMessage e st])),
      sent = Some (chatHistory (messages st) (apiRequestText (input st) (file_sel st) pdfText))\<rparr>"
  using assms by (auto simp: handleSendMessage_def Let_def)

lemma tryBlock_bad_response:
  assumes "fetch e history = Inr resp" and "\<not> ok resp \<or> body resp = None"
  shows "tryBlock e history msgs = (newDecoder msgs, Some (apiError e resp))"
  using assms by (auto simp: tryBlock_def Let_def split: option.splits)


lemma afterTry_thrown:
  "messages (afterTry e st (d, Some err)) =
     store d @ [\<lparr>msg_id = randomUUID e (uuidCalls d), msg_role = Assistant,
                 msg_content = ''Sorry, something went wrong: '' @ errorMessage ''An unknown error occurred.'' err\<rparr>]"
  "error (afterTry e st (d, Some err)) = Some (errorMessage ''An unknown error occurred.'' err)"
  "isLoading (afterTry e st (d, Some err)) = False"
  by (simp_all add: afterTry_def Let_def)


lemma onTextPart_keeps:
  assumes "keeps n um d" and "\<forall>k. 0 < k \<longrightarrow> randomUUID e k \<noteq> msg_id um"
  shows "keeps n um (onTextPart e d t)"
proof -
  have a: "keeps n um (appendMessage e d c)" for c
    using assms by (auto simp: keeps_def appendMessage_def Let_def nth_append)
  have u: "keeps n um (updateMessage held d c)" if "assistantMessageId d = Some held" for held c
    using assms(1) that by (auto simp: keeps_def updateMessage_def)
  show ?thesis
    using a u by (auto simp: onTextPart_def Let_def split: option.splits)
qed

lemma forLines_keeps:
  assumes "keeps n um d" and "\<forall>k. 0 < k \<longrightarrow> randomUUID e k \<noteq> msg_id um"
  shows "keeps n um (forLines e d ls)"
  using assms(1)
proof (induction ls arbitrary: d)
  case Nil
  then show ?case by simp
next
  case (Cons l ls)
  have "keeps n um (processLine e d l)"
    using Cons.prems onTextPart_keeps [OF _ assms(2)]
    by (simp add: processLine_fragment split: option.splits)
  then show ?case using Cons.IH by simp
qed

lemma tryBlock_keeps:
  assumes "\<forall>k. 0 < k \<longrightarrow> randomUUID e k \<noteq> msg_id um"
  shows "keeps (length msgs) um (fst (tryBlock e history (msgs @ [um])))"
proof -
  have k0: "keeps (length msgs) um (newDecoder (msgs @ [um]))"
    by (simp add: keeps_def newDecoder_def)
  then have "keeps (length msgs) um (readLoop e (newDecoder (msgs @ [um])) cs)" for cs
    using forLines_keeps [OF k0 assms] by (simp add: readLoop_lines)
  then show ?thesis
    using k0 by (auto simp: tryBlock_def Let_def split: sum.splits option.splits)
qed

lemma afterTry_keeps:
  assumes "keeps n um (fst r)"
  shows "n < length (messages (afterTry e st r)) \<and> messages (afterTry e st r) ! n = um"
  using assms
  by (cases r) (auto simp: afterTry_def keeps_def Let_def nth_append split: option.splits)

subsection \<open>The page loop\<close>

lemma pageLoop_all_pages:
  assumes "\<forall>j. i \<le> j \<and> j \<le> numPages pdf \<longrightarrow> pageStrings pdf j = Inr (fr j)"
  shows "pageLoop pdf i acc =
           Inr (acc @ concat (map (\<lambda>j. join '' '' (fr j) @ [CHR 0x0A]) [i..<Suc (numPages pdf)]))"
  using assms
proof (induction pdf i acc rule: pageLoop.induct)
  case (1 pdf i fullText)
  show ?case
  proof (cases "i \<le> numPages pdf")
    case False
    then show ?thesis by (simp add: pageLoop.simps)
  next
    case True
    then have "pageStrings pdf i = Inr (fr i)" using "1.prems" by simp
    then obtain page textContent where p: "getPage pdf i = Inr page"
      "getTextContent page = Inr textContent" "map str (items textContent) = fr i"
      by (auto simp: pageStrings_def split: sum.splits)
    have rest: "\<forall>j. i + 1 \<le> j \<and> j \<le> numPages pdf \<longrightarrow> pageStrings pdf j = Inr (fr j)"
      using "1.prems" by simp
    have "pageLoop pdf i fullText = pageLoop pdf (i + 1) (fullText @ join '' '' (fr i) @ [CHR 0x0A])"
      using True p by (subst pageLoop.simps) (simp add: Let_def)
    also have "\<dots> = Inr ((fullText @ join '' '' (fr i) @ [CHR 0x0A]) @
        concat (map (\<lambda>j. join '' '' (fr j) @ [CHR 0x0A]) [i + 1..<Suc (numPages pdf)]))"
      using "1.IH" [OF True p(1) p(2) refl rest] p(3) by simp
    finally have "pageLoop pdf i fullText =
        Inr (fullText @ concat (map (\<lambda>j. join '' '' (fr j) @ [CHR 0x0A])
               (i # [i + 1..<Suc (numPages pdf)])))"
      by simp
    moreover have "[i..<Suc (numPages pdf)] = i # [i + 1..<Suc (numPages pdf)]"
      using True by (simp add: upt_conv_Cons del: upt_Suc)
    ultimately show ?thesis by (simp only:)
  qed
qed

lemma pageLoop_first_failure:
  assumes "i \<le> k" and "k \<le> numPages pdf" and "pageStrings pdf k = Inl err"
    and "\<forall>j. i \<le> j \<and> j < k \<longrightarrow> (\<exists>ss. pageStrings pdf j = Inr ss)"
  shows "pageLoop pdf i acc = Inl err"
  using assms
proof (induction pdf i acc rule: pageLoop.induct)
  case (1 pdf i fullText)
  have le: "i \<le> numPages pdf" using "1.prems"(1,2) by simp
  show ?case
  proof (cases "i = k")
    case True
    then show ?thesis
      using "1.prems"(3) le
      by (subst pageLoop.simps) (auto simp: pageStrings_def split: sum.splits)
  next
    case False
    then have lt: "i < k" using "1.prems"(1) by simp
    then obtain ss where "pageStrings pdf i = Inr ss" using "1.prems"(4) by auto
    then obtain page textContent where p: "getPage pdf i = Inr page"
      "getTextContent page = Inr textContent"
      by (auto simp: pageStrings_def split: sum.splits)
    have rest: "\<forall>j. i + 1 \<le> j \<and> j < k \<longrightarrow> (\<exists>ss. pageStrings pdf j = Inr ss)"
      using "1.prems"(4) by simp
    have "pageLoop pdf (i + 1) (fullText @ join '' '' (map str (items textContent)) @ [CHR 0x0A]) = Inl err"
      using "1.IH" [OF le p(1) p(2) refl _ "1.prems"(2,3) rest] lt by simp
    then show ?thesis
      using le p by (subst pageLoop.simps) (simp add: Let_def)
  qed
qed

lemma pageLoop_any_failure:
  assumes "i \<le> k" and "k \<le> numPages pdf" and "pageStrings pdf k = Inl err"
  shows "\<exists>err'. pageLoop pdf i acc = Inl err'"
  using assms
proof (induction pdf i acc rule: pageLoop.induct)
  case (1 pdf i fullText)
  have le: "i \<le> numPages pdf" using "1.prems"(1,2) by simp
  show ?case
  proof (cases "pageStrings pdf i")
    case (Inl e)
    then show ?thesis
      using le by (subst pageLoop.simps) (auto simp: pageStrings_def split: sum.splits)
  next
    case (Inr ss)
    then have "i \<noteq> k" using "1.prems"(3) by auto
    then have lt: "i + 1 \<le> k" using "1.prems"(1) by simp
    from Inr obtain page textContent where p: "getPage pdf i = Inr page"
      "getTextContent page = Inr textContent"
      by (auto simp: pageStrings_def split: sum.splits)
    have "\<exists>err'. pageLoop pdf (i + 1) (fullText @ join '' '' (map str (items textContent)) @ [CHR 0x0A]) = Inl err'"
      using "1.IH" [OF le p(1) p(2) refl lt "1.prems"(2,3)] .
    then show ?thesis
      using le p by (subst pageLoop.simps) (simp add: Let_def)
  qed
qed

subsection \<open>Decimal identifiers of the examples\<close>

lemma showNat_not_Nil: "showNat n \<noteq> []"
  by (subst showNat.simps) simp

lemma showNat_zero: "showNat n = ''0'' \<Longrightarrow> n = 0"
proof (cases "n < 10")
  case True
  assume z: "showNat n = ''0''"
  from True have "n \<in> {0, 1, 2, 3, 4, 5, 6, 7, 8, 9}" by auto
  moreover have "digitChar n = CHR ''0''"
    using z True by (subst (asm) showNat.simps) simp
  ultimately show ?thesis by (auto simp: digitChar_def)
next
  case False
  assume z: "showNat n = ''0''"
  have "showNat n = showNat (n div 10) @ [digitChar (n mod 10)]"
    using False by (subst showNat.simps) simp
  then have "length (showNat n) = Suc (length (showNat (n div 10)))" by simp
  moreover have "0 < length (showNat (n div 10))" using showNat_not_Nil by simp
  ultimately show ?thesis using z by simp
qed

section \<open>The claims\<close>

subsection \<open>One assistant message per stream\<close>



subsection \<open>Records split across chunks\<close>

text \<open>
  Claim C2, as the specification states it, fails on the code: the loop splits every chunk
  by itself and keeps nothing of a chunk for the next one. The two chunks of
  \<open>splitChunks\<close> are one record line that carries the text \<^verbatim>\<open>Hello\<close>; read as one
  chunk the line gives an assistant message with that text, read as two chunks it gives no
  fragment and the store stays as it was.
\<close>

theorem C2_split_record_is_lost_counterexample:
  \<open>concat splitChunks =
      ''data: {"candidates":[{"content":{"parts":[{"text":"Hello"}]}}]}'' @ [CHR 0x0A]
   \<and> store (readLoop sampleEnv (newDecoder initialMessages) [concat splitChunks]) =
       initialMessages @ [\<lparr>msg_id = ''uuid-1'', msg_role = Assistant, msg_content = ''Hello''\<rparr>]
   \<and> streamFragments sampleEnv splitChunks = []
   \<and> store (readLoop sampleEnv (newDecoder initialMessages) splitChunks) = initialMessages\<close>
  by code_simp

text \<open>
  Claim C2, amended. The decoded text of every chunk is split into lines by itself and
  nothing is carried over to the next chunk, so the records recognised are the lines of
  the single chunks: when the decoded text of every chunk but the last is empty or ends
  with a line feed, reading the chunks one by one leaves the decoder exactly as reading
  their concatenation as a single chunk does.
\<close>

theorem C2_records_within_chunks:
  assumes "\<forall>c \<in> set (butlast cs). c = [] \<or> last c = CHR 0x0A"
  shows "readLoop e d cs = decodeChunk e d (concat cs)"
  using assms
proof (induction cs arbitrary: d)
  case Nil
  then show ?case by (simp add: decodeChunk_Nil)
next
  case (Cons c rest)
  show ?case
  proof (cases "rest = []")
    case True
    then show ?thesis by simp
  next
    case False
    then have c: "c = [] \<or> last c = CHR 0x0A"
      and r: "\<forall>x \<in> set (butlast rest). x = [] \<or> last x = CHR 0x0A"
      using Cons.prems by auto
    show ?thesis
      using Cons.IH [OF r] decodeChunk_after_line_end [OF c] by simp
  qed
qed

theorem C2_records_within_chunks_witness:
  "list_all (\<lambda>c. c = [] \<or> last c = CHR 0x0A) (butlast helloChunks)
   \<and> readLoop sampleEnv (newDecoder initialMessages) helloChunks =
       decodeChunk sampleEnv (newDecoder initialMessages) (concat helloChunks)
   \<and> store (decodeChunk sampleEnv (newDecoder initialMessages) (concat helloChunks)) =
       initialMessages @ [\<lparr>msg_id = ''uuid-1'', msg_role = Assistant, msg_content = ''Hello''\<rparr>]"
proof -
  have l: "list_all (\<lambda>c. c = [] \<or> last c = CHR 0x0A) (butlast helloChunks)" by code_simp
  have h: "\<forall>c \<in> set (butlast helloChunks). c = [] \<or> last c = CHR 0x0A"
    using l by (simp only: list_all_iff)
  have v: "store (decodeChunk sampleEnv (newDecoder initialMessages) (concat helloChunks)) =
       initialMessages @ [\<lparr>msg_id = ''uuid-1'', msg_role = Assistant, msg_content = ''Hello''\<rparr>]"
    by code_simp
  show ?thesis
    using C2_records_within_chunks [OF h, of sampleEnv "newDecoder initialMessages"] l v
    by blast
qed

subsection \<open>The composed history\<close>

text \<open>
  Claim C3. The history sent is the messages of the store in their order, each with the
  role \<^verbatim>\<open>model\<close> for an assistant message and \<^verbatim>\<open>user\<close> for a user message and
  with its content unchanged, followed by exactly one \<^verbatim>\<open>user\<close> entry whose text is the
  new text. With the store \<^verbatim>\<open>[{user, "hi"}]\<close>, the input \<^verbatim>\<open>2+2?\<close> and no file, the
  handler sends \<^verbatim>\<open>[{user, "hi"}, {user, "2+2?"}]\<close>.
\<close>

theorem C3_history_maps_roles_and_appends_input:
  "chatHistory msgs newUserText =
     map (\<lambda>msg. \<lparr>api_role = (case msg_role msg of User \<Rightarrow> ApiUser | Assistant \<Rightarrow> ApiModel),
                 api_parts = [\<lparr>part_text = msg_content msg\<rparr>]\<rparr>) msgs
     @ [\<lparr>api_role = ApiUser, api_parts = [\<lparr>part_text = newUserText\<rparr>]\<rparr>]
   \<and> length (chatHistory msgs newUserText) = Suc (length msgs)
   \<and> sent (handleSendMessage e
        \<lparr>messages = [\<lparr>msg_id = i, msg_role = User, msg_content = ''hi''\<rparr>],
         input = ''2+2?'', file_sel = None, isLoading = False, error = err\<rparr>) =
       Some [\<lparr>api_role = ApiUser, api_parts = [\<lparr>part_text = ''hi''\<rparr>]\<rparr>,
             \<lparr>api_role = ApiUser, api_parts = [\<lparr>part_text = ''2+2?''\<rparr>]\<rparr>]"
proof -
  have m: "toApiContent = (\<lambda>msg. \<lparr>api_role = (case msg_role msg of User \<Rightarrow> ApiUser | Assistant \<Rightarrow> ApiModel),
                 api_parts = [\<lparr>part_text = msg_content msg\<rparr>]\<rparr>)"
    by (rule ext) (simp add: toApiContent_def split: role.splits)
  have t: "trim ''2+2?'' = ''2+2?''"
    by (simp add: trim_def isWhiteSpace_def)
  have a: "chatHistory msgs newUserText =
     map (\<lambda>msg. \<lparr>api_role = (case msg_role msg of User \<Rightarrow> ApiUser | Assistant \<Rightarrow> ApiModel),
                 api_parts = [\<lparr>part_text = msg_content msg\<rparr>]\<rparr>) msgs
     @ [\<lparr>api_role = ApiUser, api_parts = [\<lparr>part_text = newUserText\<rparr>]\<rparr>]"
    by (simp add: chatHistory_def m)
  have b: "length (chatHistory msgs newUserText) = Suc (length msgs)"
    by (simp add: chatHistory_def)
  have c: "sent (handleSendMessage e
        \<lparr>messages = [\<lparr>msg_id = i, msg_role = User, msg_content = ''hi''\<rparr>],
         input = ''2+2?'', file_sel = None, isLoading = False, error = err\<rparr>) =
       Some [\<lparr>api_role = ApiUser, api_parts = [\<lparr>part_text = ''hi''\<rparr>]\<rparr>,
             \<lparr>api_role = ApiUser, api_parts = [\<lparr>part_text = ''2+2?''\<rparr>]\<rparr>]"
    by (simp add: handleSendMessage_def pdfTextOf_def Let_def t chatHistory_def
          toApiContent_def apiRequestText_def)
  show ?thesis using a b c by simp
qed

theorem C3_history_maps_roles_and_appends_input_witness:
  "chatHistory initialMessages ''2+2?'' =
     [\<lparr>api_role = ApiModel, api_parts = [\<lparr>part_text = msg_content (hd initialMessages)\<rparr>]\<rparr>,
      \<lparr>api_role = ApiUser, api_parts = [\<lparr>part_text = ''2+2?''\<rparr>]\<rparr>]"
  using C3_history_maps_roles_and_appends_input [of initialMessages "''2+2?''"]
  by (simp add: initialMessages_def)


subsection \<open>A refused response\<close>

text \<open>
  Claim C4. When a submission is accepted, the text of the file (if any) is extracted, and
  the response to the request is not a success or has no body, the \<^verbatim>\<open>try\<close> block throws
  (the error built from the status and the remote message when the body of the response
  decodes), the store ends as the store from before the submission followed by the user
  message and exactly one assistant message that reports the failure, the error cell holds
  the message, and the handler is no longer loading. The user message is still there.
\<close>

theorem C4_refused_response_appends_one_error_turn:
  assumes "\<not> isLoading st"
    and "trim (input st) \<noteq> [] \<or> file_sel st \<noteq> None"
    and "pdfTextOf e st = Inr pdfText"
    and "fetch e (chatHistory (messages st) (apiRequestText (input st) (file_sel st) pdfText)) = Inr resp"
    and "\<not> ok resp \<or> body resp = None"
  shows "snd (tryBlock e (chatHistory (messages st) (apiRequestText (input st) (file_sel st) pdfText))
                (messages st @ [userMessage e st])) = Some (apiError e resp)
     \<and> messages (final (handleSendMessage e st)) =
         messages st @ [userMessage e st,
           \<lparr>msg_id = randomUUID e 1, msg_role = Assistant,
            msg_content = ''Sorry, something went wrong: ''
               @ errorMessage ''An unknown error occurred.'' (apiError e resp)\<rparr>]
     \<and> error (final (handleSendMessage e st)) =
         Some (errorMessage ''An unknown error occurred.'' (apiError e resp))
     \<and> \<not> isLoading (final (handleSendMessage e st))
     \<and> (\<forall>errorBody m. json_result resp = Inr errorBody \<and> toStr (remoteMessage errorBody) = Some m \<longrightarrow>
           apiError e resp = ErrorObj (''API error: '' @ showNat (status resp) @ '' - '' @ m))"
proof -
  have "\<forall>errorBody m. json_result resp = Inr errorBody \<and> toStr (remoteMessage errorBody) = Some m \<longrightarrow>
           apiError e resp = ErrorObj (''API error: '' @ showNat (status resp) @ '' - '' @ m)"
    by (simp add: apiError_def)
  then show ?thesis
    by (simp add: handleSendMessage_accepted [OF assms(1,2,3)]
          tryBlock_bad_response [OF assms(4,5)] afterTry_thrown newDecoder_def)
qed

theorem C4_refused_response_appends_one_error_turn_witness:
  "\<not> isLoading typedState
   \<and> trim (input typedState) = ''2+2?''
   \<and> pdfTextOf failedEnv typedState = Inr []
   \<and> fetch failedEnv (chatHistory (messages typedState)
        (apiRequestText (input typedState) (file_sel typedState) [])) = Inr failedResponse
   \<and> \<not> ok failedResponse
   \<and> messages (final (handleSendMessage failedEnv typedState)) =
       initialMessages @
         [\<lparr>msg_id = ''uuid-0'', msg_role = User, msg_content = ''2+2?''\<rparr>,
          \<lparr>msg_id = ''uuid-1'', msg_role = Assistant,
           msg_content = ''Sorry, something went wrong: API error: 400 - API key not valid.''\<rparr>]
   \<and> error (final (handleSendMessage failedEnv typedState)) =
       Some ''API error: 400 - API key not valid.''"
proof -
  have h1: "\<not> isLoading typedState" by code_simp
  have t: "trim (input typedState) = ''2+2?''" by code_simp
  have h2: "trim (input typedState) \<noteq> [] \<or> file_sel typedState \<noteq> None" by (simp add: t)
  have h3: "pdfTextOf failedEnv typedState = Inr []" by code_simp
  have h4: "fetch failedEnv (chatHistory (messages typedState)
        (apiRequestText (input typedState) (file_sel typedState) [])) = Inr failedResponse"
    by (simp add: failedEnv_def)
  have n: "\<not> ok failedResponse" by code_simp
  have h5: "\<not> ok failedResponse \<or> body failedResponse = None" using n by simp
  have v1: "userMessage failedEnv typedState =
      \<lparr>msg_id = ''uuid-0'', msg_role = User, msg_content = ''2+2?''\<rparr>" by code_simp
  have v2: "apiError failedEnv failedResponse = ErrorObj ''API error: 400 - API key not valid.''"
    by code_simp
  have v3: "randomUUID failedEnv 1 = ''uuid-1''" by code_simp
  have v4: "messages typedState = initialMessages" by code_simp
  show ?thesis
    using C4_refused_response_appends_one_error_turn [OF h1 h2 h3 h4 h5, unfolded v1 v2 v3 v4]
      h1 t h3 h4 n
    by (simp add: errorMessage_def)
qed

subsection \<open>A malformed record\<close>

text \<open>
  Claim C5. When the lines of a stream are \<open>pre\<close>, a data record \<open>bad\<close> whose body does
  not parse, and \<open>post\<close>, the record changes nothing (in whatever state the loop meets it)
  and nothing is thrown: the loop goes on and ends as if the record were not there, the
  accumulated text is the fragments of \<open>pre\<close> followed by the fragments of \<open>post\<close>, and
  when there is any fragment the store ends with the one assistant message holding them
  all, the fragments after the malformed record included.
\<close>

theorem C5_malformed_record_is_skipped:
  assumes "streamLines cs = pre @ bad # post"
    and "malformedRecord e bad"
    and "randomUUID e 1 \<noteq> []"
    and "randomUUID e 1 \<notin> msg_id ` set msgs"
  shows "processLine e d bad = d
     \<and> readLoop e (newDecoder msgs) cs = forLines e (forLines e (newDecoder msgs) pre) post
     \<and> aiResponseContent (readLoop e (newDecoder msgs) cs) =
         concat (fragmentsOf e pre) @ concat (fragmentsOf e post)
     \<and> (fragmentsOf e pre @ fragmentsOf e post \<noteq> [] \<longrightarrow>
          store (readLoop e (newDecoder msgs) cs) =
            msgs @ [\<lparr>msg_id = randomUUID e 1, msg_role = Assistant,
                     msg_content = concat (fragmentsOf e pre) @ concat (fragmentsOf e post)\<rparr>])"
proof -
  let ?d = "newDecoder msgs"
  have skip: "processLine e d' bad = d'" for d'
    using assms(2) by (rule malformed_ignored)
  have fr: "fragmentsOf e (pre @ bad # post) = fragmentsOf e pre @ fragmentsOf e post"
    using malformed_no_fragment [OF assms(2)]
    by (simp add: fragmentsOf_append fragmentsOf_Cons)
  have run: "readLoop e ?d cs = forLines e (forLines e ?d pre) post"
    by (simp add: readLoop_lines assms(1) forLines_append skip)
  have content: "aiResponseContent (readLoop e ?d cs) =
      concat (fragmentsOf e pre) @ concat (fragmentsOf e post)"
    by (simp add: readLoop_lines assms(1) forLines_content fr newDecoder_def)
  have none: "assistantMessageId ?d = None" by (simp add: newDecoder_def)
  have fresh: "randomUUID e (uuidCalls ?d) \<noteq> []"
    "randomUUID e (uuidCalls ?d) \<notin> msg_id ` set (store ?d)"
    using assms(3,4) by (simp_all add: newDecoder_def)
  have "store (readLoop e ?d cs) =
      msgs @ [\<lparr>msg_id = randomUUID e 1, msg_role = Assistant,
               msg_content = concat (fragmentsOf e pre) @ concat (fragmentsOf e post)\<rparr>]"
    if "fragmentsOf e pre @ fragmentsOf e post \<noteq> []"
  proof -
    have "fragmentsOf e (streamLines cs) \<noteq> []" using that fr by (simp add: assms(1))
    from forLines_first [OF none fresh this] show ?thesis
      by (simp add: readLoop_lines assms(1) fr newDecoder_def)
  qed
  then show ?thesis using skip run content by blast
qed

theorem C5_malformed_record_is_skipped_witness:
  \<open>streamLines noisyChunks =
      [''data: {"candidates":[{"content":{"parts":[{"text":"Hel"}]}}]}'']
      @ ''data: {"candidates": oops''
      # ['''', ''data: {"candidates":[{"content":{"parts":[{"text":"lo"}]}}]}'', '''']
   \<and> malformedRecord sampleEnv ''data: {"candidates": oops''
   \<and> randomUUID sampleEnv 1 \<noteq> []
   \<and> randomUUID sampleEnv 1 \<notin> msg_id ` set initialMessages
   \<and> store (readLoop sampleEnv (newDecoder initialMessages) noisyChunks) =
       initialMessages @ [\<lparr>msg_id = ''uuid-1'', msg_role = Assistant, msg_content = ''Hello''\<rparr>]\<close>
proof -
  let ?pre = \<open>[''data: {"candidates":[{"content":{"parts":[{"text":"Hel"}]}}]}'']\<close>
  let ?bad = \<open>''data: {"candidates": oops''\<close>
  let ?post = \<open>['''', ''data: {"candidates":[{"content":{"parts":[{"text":"lo"}]}}]}'', '''']\<close>
  have h1: "streamLines noisyChunks = ?pre @ ?bad # ?post" by code_simp
  have h2: "malformedRecord sampleEnv ?bad" by code_simp
  have h3: "randomUUID sampleEnv 1 \<noteq> []" by code_simp
  have h4: "randomUUID sampleEnv 1 \<notin> msg_id ` set initialMessages" by code_simp
  have u: "randomUUID sampleEnv 1 = ''uuid-1''" by code_simp
  have f1: "fragmentsOf sampleEnv ?pre = [''Hel'']" by code_simp
  have f2: "fragmentsOf sampleEnv ?post = [''lo'']" by code_simp
  have c: "store (readLoop sampleEnv (newDecoder initialMessages) noisyChunks) =
       initialMessages @ [\<lparr>msg_id = ''uuid-1'', msg_role = Assistant, msg_content = ''Hello''\<rparr>]"
    using C5_malformed_record_is_skipped [OF h1 h2 h3 h4, where d = "newDecoder initialMessages",
        THEN conjunct2, THEN conjunct2, THEN conjunct2]
    by (simp add: u [unfolded One_nat_def] f1 f2)
  show ?thesis
    by (intro conjI h1 h2 h3 h4 c)
qed

subsection \<open>A document that cannot be read\<close>

text \<open>
  Claim C6. When no submission is in flight, a file is attached and \<^verbatim>\<open>parsePdf\<close>
  throws, the handler stops before it creates any message: the store is what it was, the
  input and the file stay, nothing is sent, the error cell holds the message of the error
  (or the fallback text), and the handler is no longer loading.
\<close>

theorem C6_failed_extraction_leaves_store:
  assumes "\<not> isLoading st"
    and "file_sel st = Some pdfFile"
    and "parsePdf e pdfFile = Inl err"
  shows "handleSendMessage e st =
           \<lparr>final = st\<lparr>isLoading := False, error := Some (errorMessage ''Failed to parse PDF.'' err)\<rparr>,
            sent = None\<rparr>
         \<and> messages (final (handleSendMessage e st)) = messages st
         \<and> \<not> isLoading (final (handleSendMessage e st))"
  using assms by (simp add: handleSendMessage_def pdfTextOf_def Let_def)

theorem C6_failed_extraction_leaves_store_witness:
  "\<not> isLoading fileState
   \<and> file_sel fileState = Some sampleFile
   \<and> parsePdf brokenEnv sampleFile = Inl (ErrorObj ''Invalid page request'')
   \<and> messages (final (handleSendMessage brokenEnv fileState)) = initialMessages
   \<and> error (final (handleSendMessage brokenEnv fileState)) = Some ''Invalid page request''
   \<and> sent (handleSendMessage brokenEnv fileState) = None"
proof -
  have h1: "\<not> isLoading fileState" by code_simp
  have h2: "file_sel fileState = Some sampleFile" by code_simp
  have h3: "parsePdf brokenEnv sampleFile = Inl (ErrorObj ''Invalid page request'')" by code_simp
  have v: "messages fileState = initialMessages" by code_simp
  show ?thesis
    using C6_failed_extraction_leaves_store [OF h1 h2 h3] h1 h2 h3 v
    by (simp add: errorMessage_def)
qed


subsection \<open>The text of a document\<close>

text \<open>
  Claim C7. For a document that the library opens: when every page from 1 to
  \<^verbatim>\<open>numPages\<close> yields its text fragments, the extraction returns the texts of the pages
  in ascending order of the page number, starting at page 1, the text of a page being its
  fragments joined by single spaces and followed by one line feed; when a page cannot be
  read and all pages before it can, the extraction fails with what that page threw; and
  when any page cannot be read, the extraction fails, and a failure carries no text.
\<close>

theorem C7_pages_in_order_or_failure:
  assumes "pdfjsLib e = Some getDocument"
    and "readAsArrayBuffer e pdfFile = Loaded (Some typedArray)"
    and "getDocument typedArray = Inr pdf"
  shows "((\<forall>i. 1 \<le> i \<and> i \<le> numPages pdf \<longrightarrow> pageStrings pdf i = Inr (fragments i)) \<longrightarrow>
            parsePdf e pdfFile =
              Inr (concat (map (\<lambda>i. join '' '' (fragments i) @ [CHR 0x0A]) [1..<Suc (numPages pdf)])))
     \<and> (1 \<le> k \<and> k \<le> numPages pdf \<and> pageStrings pdf k = Inl err
          \<and> (\<forall>i. 1 \<le> i \<and> i < k \<longrightarrow> (\<exists>ss. pageStrings pdf i = Inr ss)) \<longrightarrow>
            parsePdf e pdfFile = Inl err)
     \<and> ((\<exists>j err'. 1 \<le> j \<and> j \<le> numPages pdf \<and> pageStrings pdf j = Inl err') \<longrightarrow>
            (\<exists>err'. parsePdf e pdfFile = Inl err'))"
proof -
  have p: "parsePdf e pdfFile = pageLoop pdf 1 []"
    using assms by (simp add: parsePdf_def)
  have a: "parsePdf e pdfFile =
      Inr (concat (map (\<lambda>i. join '' '' (fragments i) @ [CHR 0x0A]) [1..<Suc (numPages pdf)]))"
    if "\<forall>i. 1 \<le> i \<and> i \<le> numPages pdf \<longrightarrow> pageStrings pdf i = Inr (fragments i)"
    using pageLoop_all_pages [OF that, of "[]"] by (simp add: p)
  have b: "parsePdf e pdfFile = Inl err"
    if "1 \<le> k" "k \<le> numPages pdf" "pageStrings pdf k = Inl err"
      "\<forall>i. 1 \<le> i \<and> i < k \<longrightarrow> (\<exists>ss. pageStrings pdf i = Inr ss)"
    using pageLoop_first_failure [OF that] by (simp add: p)
  have c: "\<exists>err'. parsePdf e pdfFile = Inl err'"
    if "\<exists>j err'. 1 \<le> j \<and> j \<le> numPages pdf \<and> pageStrings pdf j = Inl err'"
  proof -
    from that obtain j err' where "1 \<le> j" "j \<le> numPages pdf" "pageStrings pdf j = Inl err'"
      by blast
    from pageLoop_any_failure [OF this] show ?thesis by (simp add: p)
  qed
  show ?thesis using a b c by blast
qed

theorem C7_pages_in_order_or_failure_witness:
  "parsePdf sampleEnv sampleFile = Inr (''Annual report'' @ [CHR 0x0A] @ ''Page two'' @ [CHR 0x0A])
   \<and> numPages brokenPdf = 2
   \<and> pageStrings brokenPdf 1 = Inr [''Annual'', ''report'']
   \<and> pageStrings brokenPdf 2 = Inl (ErrorObj ''Invalid page request'')
   \<and> parsePdf brokenEnv sampleFile = Inl (ErrorObj ''Invalid page request'')"
proof -
  have g1: "pdfjsLib sampleEnv = Some (\<lambda>typedArray. Inr samplePdf)"
    by (simp add: sampleEnv_def)
  have g2: "readAsArrayBuffer sampleEnv sampleFile = Loaded (Some [37, 80, 68, 70])"
    by (simp add: sampleEnv_def)
  have g3: "(\<lambda>typedArray :: bytes. (Inr samplePdf :: thrown + pdf_document)) [37, 80, 68, 70] = Inr samplePdf"
    by simp
  have n: "numPages samplePdf = 2" by (simp add: samplePdf_def)
  have s1: "pageStrings samplePdf 1 = Inr (samplePages 1)" by code_simp
  have s2: "pageStrings samplePdf 2 = Inr (samplePages 2)" by code_simp
  have all: "\<forall>i. 1 \<le> i \<and> i \<le> numPages samplePdf \<longrightarrow> pageStrings samplePdf i = Inr (samplePages i)"
  proof (intro allI impI)
    fix i :: nat
    assume "1 \<le> i \<and> i \<le> numPages samplePdf"
    then have "i = 1 \<or> i = 2" using n by auto
    then show "pageStrings samplePdf i = Inr (samplePages i)" using s1 s2 by auto
  qed
  have v: "concat (map (\<lambda>i. join '' '' (samplePages i) @ [CHR 0x0A]) [1..<Suc (numPages samplePdf)]) =
      ''Annual report'' @ [CHR 0x0A] @ ''Page two'' @ [CHR 0x0A]"
    by code_simp
  have ok: "parsePdf sampleEnv sampleFile =
      Inr (''Annual report'' @ [CHR 0x0A] @ ''Page two'' @ [CHR 0x0A])"
    using C7_pages_in_order_or_failure [OF g1 g2 g3, of samplePages, THEN conjunct1] all v
    by simp
  have b1: "pdfjsLib brokenEnv = Some (\<lambda>typedArray. Inr brokenPdf)"
    by (simp add: brokenEnv_def)
  have b2: "readAsArrayBuffer brokenEnv sampleFile = Loaded (Some [37, 80, 68, 70])"
    by (simp add: brokenEnv_def sampleEnv_def)
  have b3: "(\<lambda>typedArray :: bytes. (Inr brokenPdf :: thrown + pdf_document)) [37, 80, 68, 70] = Inr brokenPdf"
    by simp
  have m: "numPages brokenPdf = 2" by (simp add: brokenPdf_def)
  have p1: "pageStrings brokenPdf 1 = Inr [''Annual'', ''report'']" by code_simp
  have p2: "pageStrings brokenPdf 2 = Inl (ErrorObj ''Invalid page request'')" by code_simp
  have before: "\<forall>i. 1 \<le> i \<and> i < 2 \<longrightarrow> (\<exists>ss. pageStrings brokenPdf i = Inr ss)"
  proof (intro allI impI)
    fix i :: nat
    assume "1 \<le> i \<and> i < 2"
    then have "i = 1" by auto
    then show "\<exists>ss. pageStrings brokenPdf i = Inr ss" using p1 by auto
  qed
  have bad: "parsePdf brokenEnv sampleFile = Inl (ErrorObj ''Invalid page request'')"
    using C7_pages_in_order_or_failure [OF b1 b2 b3, where k = 2
        and err = "ErrorObj ''Invalid page request''", THEN conjunct2, THEN conjunct1]
      m p2 before
    by simp
  show ?thesis by (intro conjI ok m p1 p2 bad)
qed

subsection \<open>A submission while another is in flight\<close>

text \<open>
  Claim C8. A submit event that arrives while \<^verbatim>\<open>isLoading\<close> is set does nothing: the
  handler returns at its first test, the whole state (the store with its length and its
  contents among it) is what it was, and nothing is sent or queued.
\<close>

theorem C8_submit_while_loading_is_noop:
  assumes "isLoading st"
  shows "handleSendMessage e st = \<lparr>final = st, sent = None\<rparr>
     \<and> messages (final (handleSendMessage e st)) = messages st
     \<and> length (messages (final (handleSendMessage e st))) = length (messages st)"
  using assms by (simp add: handleSendMessage_def)

theorem C8_submit_while_loading_is_noop_witness:
  "isLoading busyState
   \<and> handleSendMessage sampleEnv busyState = \<lparr>final = busyState, sent = None\<rparr>
   \<and> messages (final (handleSendMessage sampleEnv busyState)) = initialMessages"
proof -
  have h: "isLoading busyState" by code_simp
  have v: "messages busyState = initialMessages" by code_simp
  show ?thesis
    using C8_submit_while_loading_is_noop [OF h, of sampleEnv] h v by simp
qed

subsection \<open>A file with no typed text\<close>

text \<open>
  Claim C9. When no submission is in flight, the input is empty after trimming, a file is
  attached and its text is extracted, and no identifier drawn later in the run repeats the
  identifier of the user message, then the store (whatever the response turns out to be)
  has gained, right after the messages it had, a user message whose content is
  \<^verbatim>\<open>File uploaded: \<close> followed by the name of the file, which is not empty; the text sent
  as the last entry of the history is not that content but the header naming the file
  followed by the extracted text (or the empty string when no text was extracted).
\<close>

theorem C9_file_only_submission_shows_file_name:
  assumes "\<not> isLoading st"
    and "trim (input st) = []"
    and "file_sel st = Some pdfFile"
    and "parsePdf e pdfFile = Inr pdfText"
    and "\<forall>k. 0 < k \<longrightarrow> randomUUID e k \<noteq> randomUUID e 0"
  shows "length (messages st) < length (messages (final (handleSendMessage e st)))
     \<and> messages (final (handleSendMessage e st)) ! length (messages st) =
         \<lparr>msg_id = randomUUID e 0, msg_role = User,
          msg_content = ''File uploaded: '' @ file_name pdfFile\<rparr>
     \<and> msg_content (messages (final (handleSendMessage e st)) ! length (messages st)) \<noteq> []
     \<and> sent (handleSendMessage e st) =
         Some (chatHistory (messages st)
           (if pdfText = [] then []
            else [CHR 0x0A, CHR 0x0A] @ ''--- Content from '' @ file_name pdfFile @ '' ---''
                   @ [CHR 0x0A] @ pdfText))"
proof -
  have um: "userMessage e st =
      \<lparr>msg_id = randomUUID e 0, msg_role = User, msg_content = ''File uploaded: '' @ file_name pdfFile\<rparr>"
    using assms(2,3) by (simp add: userMessage_def fileNameOf_def)
  have acc: "trim (input st) \<noteq> [] \<or> file_sel st \<noteq> None" using assms(3) by simp
  have pt: "pdfTextOf e st = Inr pdfText" using assms(3,4) by (simp add: pdfTextOf_def)
  have ids: "\<forall>k. 0 < k \<longrightarrow> randomUUID e k \<noteq> msg_id (userMessage e st)"
    using assms(5) by (simp add: um)
  have rq: "apiRequestText (input st) (file_sel st) pdfText =
      (if pdfText = [] then []
       else [CHR 0x0A, CHR 0x0A] @ ''--- Content from '' @ file_name pdfFile @ '' ---''
              @ [CHR 0x0A] @ pdfText)"
    using assms(2,3) by (simp add: apiRequestText_def fileNameOf_def)
  note h = handleSendMessage_accepted [OF assms(1) acc pt]
  have "length (messages st) < length (messages (final (handleSendMessage e st)))
     \<and> messages (final (handleSendMessage e st)) ! length (messages st) = userMessage e st"
    unfolding h using afterTry_keeps [OF tryBlock_keeps [OF ids]] by simp
  moreover have "sent (handleSendMessage e st) = Some (chatHistory (messages st)
      (apiRequestText (input st) (file_sel st) pdfText))"
    unfolding h by simp
  ultimately show ?thesis by (simp add: um rq)
qed

theorem C9_file_only_submission_shows_file_name_witness:
  "\<not> isLoading fileState
   \<and> trim (input fileState) = []
   \<and> file_sel fileState = Some sampleFile
   \<and> parsePdf sampleEnv sampleFile = Inr (''Annual report'' @ [CHR 0x0A] @ ''Page two'' @ [CHR 0x0A])
   \<and> messages (final (handleSendMessage sampleEnv fileState)) ! 1 =
       \<lparr>msg_id = ''uuid-0'', msg_role = User, msg_content = ''File uploaded: report.pdf''\<rparr>
   \<and> sent (handleSendMessage sampleEnv fileState) =
       Some (chatHistory initialMessages
         ([CHR 0x0A, CHR 0x0A] @ ''--- Content from report.pdf ---'' @ [CHR 0x0A]
            @ ''Annual report'' @ [CHR 0x0A] @ ''Page two'' @ [CHR 0x0A]))"
proof -
  have h1: "\<not> isLoading fileState" by code_simp
  have h2: "trim (input fileState) = []" by code_simp
  have h3: "file_sel fileState = Some sampleFile" by code_simp
  have h4: "parsePdf sampleEnv sampleFile =
      Inr (''Annual report'' @ [CHR 0x0A] @ ''Page two'' @ [CHR 0x0A])" by code_simp
  have u: "randomUUID sampleEnv k = ''uuid-'' @ showNat k" for k
    by (simp add: sampleEnv_def)
  have z: "showNat 0 = ''0''" by code_simp
  have h5: "\<forall>k. 0 < k \<longrightarrow> randomUUID sampleEnv k \<noteq> randomUUID sampleEnv 0"
    using showNat_zero by (auto simp: u z)
  have v1: "messages fileState = initialMessages" by code_simp
  have v2: "length initialMessages = 1" by code_simp
  have v3: "file_name sampleFile = ''report.pdf''" by code_simp
  note t = C9_file_only_submission_shows_file_name [OF h1 h2 h3 h4 h5]
  have c1: "messages (final (handleSendMessage sampleEnv fileState)) ! 1 =
       \<lparr>msg_id = ''uuid-0'', msg_role = User, msg_content = ''File uploaded: report.pdf''\<rparr>"
    using t [THEN conjunct2, THEN conjunct1] by (simp add: v1 v2 v3 u z)
  have c2: "sent (handleSendMessage sampleEnv fileState) =
       Some (chatHistory initialMessages
         ([CHR 0x0A, CHR 0x0A] @ ''--- Content from report.pdf ---'' @ [CHR 0x0A]
            @ ''Annual report'' @ [CHR 0x0A] @ ''Page two'' @ [CHR 0x0A]))"
    using t [THEN conjunct2, THEN conjunct2, THEN conjunct2] by (simp add: v1 v3)
  show ?thesis by (intro conjI h1 h2 h3 h4 c1 c2)
qed

subsection \<open>A stream without text\<close>





end
